theory Spec2Isabelle
  imports Main
begin

section \<open>JavaScript values and string primitives used by helper.js\<close>

text \<open>
  Strings are lists of characters. The values a caller can hand to a function that tests
  \<^verbatim>\<open>typeof\<close> or \<^verbatim>\<open>Array.isArray\<close> are the tagged union below; the payload of
  a number only tells leaves apart.
\<close>

datatype js_value =
    JUndefined
  | JNull
  | JBool bool
  | JNum int
  | JStr string
  | JArr "js_value list"
  | JObj "(string \<times> js_value) list"

fun typeof :: "js_value \<Rightarrow> string" where
  "typeof JUndefined = ''undefined''"
| "typeof JNull = ''object''"
| "typeof (JBool b) = ''boolean''"
| "typeof (JNum n) = ''number''"
| "typeof (JStr s) = ''string''"
| "typeof (JArr xs) = ''object''"
| "typeof (JObj kvs) = ''object''"

fun isArray :: "js_value \<Rightarrow> bool" where
  "isArray (JArr xs) = True"
| "isArray v = False"

text \<open>\<^verbatim>\<open>Array.prototype.join\<close> on an array of strings.\<close>

fun join :: "string \<Rightarrow> string list \<Rightarrow> string" where
  "join sep [] = []"
| "join sep [x] = x"
| "join sep (x # y # ys) = x @ sep @ join sep (y # ys)"

text \<open>
  \<^verbatim>\<open>String.prototype.split\<close> with a separator of one character: the result always has
  one more element than the string has separators, so the empty string gives \<^verbatim>\<open>['']\<close>.
\<close>

fun split :: "char \<Rightarrow> string \<Rightarrow> string list" where
  "split c [] = [[]]"
| "split c (x # xs) =
     (if x = c then [] # split c xs
      else (case split c xs of
              [] \<Rightarrow> [[x]]
            | seg # segs \<Rightarrow> (x # seg) # segs))"

section \<open>Path hierarchy joining\<close>

text \<open>
  \<^verbatim>\<open>buildPath\<close>: the \<^verbatim>\<open>forEach\<close> loop pushes every fragment other than \<^verbatim>\<open>'/'\<close>
  onto \<^verbatim>\<open>slashIgnored\<close>; an empty result is replaced by \<^verbatim>\<open>['/']\<close>; the fragments are
  joined with the empty separator.
\<close>

definition buildPath :: "string list \<Rightarrow> string" where
  "buildPath pathHierarchy =
     (let slashIgnored =
            foldl (\<lambda>acc path. if path \<noteq> ''/'' then acc @ [path] else acc) [] pathHierarchy;
          cleanPathHierarchy =
            (if length slashIgnored = 0 then [''/''] else slashIgnored)
      in join '''' cleanPathHierarchy)"

section \<open>Regular expressions\<close>

text \<open>
  The two validators test a string against a regular expression literal anchored with
  \<^verbatim>\<open>^\<close> and \<^verbatim>\<open>$\<close> (no flags), so \<^verbatim>\<open>match\<close> returns a non-null
  result exactly when the whole string is in the language of the expression. The
  expressions are kept as syntax trees; \<open>full_match\<close> decides membership by
  derivatives, \<open>lang\<close> is the language an expression denotes.
\<close>

datatype cls_item = Single char | Range char char

fun item_matches :: "cls_item \<Rightarrow> char \<Rightarrow> bool" where
  "item_matches (Single a) c = (c = a)"
| "item_matches (Range lo hi) c =
     ((of_char lo :: nat) \<le> of_char c \<and> (of_char c :: nat) \<le> of_char hi)"

definition in_class :: "cls_item list \<Rightarrow> char \<Rightarrow> bool" where
  "in_class items c = list_ex (\<lambda>i. item_matches i c) items"

datatype regex =
    Zero
  | One
  | Chr char
  | Class "cls_item list"
  | Alt regex regex
  | Seq regex regex
  | Star regex

text \<open>The postfix operators \<^verbatim>\<open>?\<close> and \<^verbatim>\<open>+\<close>.\<close>

definition Opt :: "regex \<Rightarrow> regex" where
  "Opt r = Alt r One"

definition Plus :: "regex \<Rightarrow> regex" where
  "Plus r = Seq r (Star r)"

fun nullable :: "regex \<Rightarrow> bool" where
  "nullable Zero = False"
| "nullable One = True"
| "nullable (Chr a) = False"
| "nullable (Class items) = False"
| "nullable (Alt r s) = (nullable r \<or> nullable s)"
| "nullable (Seq r s) = (nullable r \<and> nullable s)"
| "nullable (Star r) = True"

fun deriv :: "char \<Rightarrow> regex \<Rightarrow> regex" where
  "deriv c Zero = Zero"
| "deriv c One = Zero"
| "deriv c (Chr a) = (if c = a then One else Zero)"
| "deriv c (Class items) = (if in_class items c then One else Zero)"
| "deriv c (Alt r s) = Alt (deriv c r) (deriv c s)"
| "deriv c (Seq r s) =
     (if nullable r then Alt (Seq (deriv c r) s) (deriv c s) else Seq (deriv c r) s)"
| "deriv c (Star r) = Seq (deriv c r) (Star r)"

fun full_match :: "regex \<Rightarrow> string \<Rightarrow> bool" where
  "full_match r [] = nullable r"
| "full_match r (c # cs) = full_match (deriv c r) cs"

definition conc :: "string set \<Rightarrow> string set \<Rightarrow> string set" where
  "conc A B = {u @ v | u v. u \<in> A \<and> v \<in> B}"

inductive_set star :: "string set \<Rightarrow> string set" for A :: "string set" where
  star_empty: "[] \<in> star A"
| star_step: "u \<in> A \<Longrightarrow> v \<in> star A \<Longrightarrow> u @ v \<in> star A"

fun lang :: "regex \<Rightarrow> string set" where
  "lang Zero = {}"
| "lang One = {[]}"
| "lang (Chr a) = {[a]}"
| "lang (Class items) = {[c] | c. in_class items c}"
| "lang (Alt r s) = lang r \<union> lang s"
| "lang (Seq r s) = conc (lang r) (lang s)"
| "lang (Star r) = star (lang r)"

section \<open>Validation\<close>

text \<open>The character class \<^verbatim>\<open>[-_.a-zA-Z0-9]\<close>.\<close>

definition token_class :: "cls_item list" where
  "token_class =
     [Single CHR ''-'', Single CHR ''_'', Single CHR ''.'',
      Range CHR ''a'' CHR ''z'', Range CHR ''A'' CHR ''Z'', Range CHR ''0'' CHR ''9'']"

text \<open>\<^verbatim>\<open>/^[-_.a-zA-Z0-9]+$/\<close>\<close>

definition name_regex :: regex where
  "name_regex = Plus (Class token_class)"

text \<open>\<^verbatim>\<open>/^(\/:?[-_.a-zA-Z0-9]+)+$/\<close>\<close>

definition path_regex :: regex where
  "path_regex =
     Plus (Seq (Chr CHR ''/'') (Seq (Opt (Chr CHR '':'')) (Plus (Class token_class))))"

definition isValidName :: "js_value \<Rightarrow> bool" where
  "isValidName name =
     (if typeof name \<noteq> ''string'' then False
      else (case name of JStr s \<Rightarrow> full_match name_regex s | _ \<Rightarrow> False))"

definition isValidPathForNamedRoute :: "js_value \<Rightarrow> bool" where
  "isValidPathForNamedRoute path =
     (if typeof path \<noteq> ''string'' then False
      else if path = JStr ''/'' then True
      else (case path of JStr s \<Rightarrow> full_match path_regex s | _ \<Rightarrow> False))"

section \<open>Tokenization\<close>

text \<open>
  A token object has the property \<^verbatim>\<open>text\<close> and, for a parameter segment only, the
  property \<^verbatim>\<open>input\<close>; an absent property is \<open>None\<close>.
\<close>

record token =
  "text" :: string
  input :: "bool option"

text \<open>
  \<^verbatim>\<open>charAt\<close> gives the empty string out of range; \<^verbatim>\<open>substring\<close> with one argument
  gives the rest of the string from that index.
\<close>

definition charAt :: "string \<Rightarrow> nat \<Rightarrow> string" where
  "charAt s i = take 1 (drop i s)"

definition substring :: "string \<Rightarrow> nat \<Rightarrow> string" where
  "substring s i = drop i s"

definition toToken :: "string \<Rightarrow> token" where
  "toToken item =
     (if length item > 0 \<and> charAt item 0 = '':''
      then \<lparr>text = substring item 1, input = Some True\<rparr>
      else \<lparr>text = item, input = None\<rparr>)"

definition tokensToString :: "token list \<Rightarrow> string" where
  "tokensToString tokens =
     join ''/''
       (map (\<lambda>token. if input token = Some True then '':'' @ text token else text token)
          tokens)"

section \<open>Registration\<close>

record route_def =
  pattern :: string
  tokens :: "token list"

type_synonym routeTable = "string \<rightharpoonup> route_def"

text \<open>
  The two \<^verbatim>\<open>throw new Error(...)\<close> statements; each error carries the value appended to
  its message (the route name, the generated pattern).
\<close>

datatype error = DuplicateRouteName string | MalformedPattern string

text \<open>
  The route table is a plain object, as the \<^verbatim>\<open>{}\<close> of the documented examples: the
  map holds its own entries, and its prototype is \<^verbatim>\<open>Object.prototype\<close>. The property
  names of \<^verbatim>\<open>Object.prototype\<close> are those of ECMAScript (sections 20.1.3 and B.2.2).
\<close>

definition object_prototype_names :: "string list" where
  "object_prototype_names =
     [''constructor'', ''hasOwnProperty'', ''isPrototypeOf'', ''propertyIsEnumerable'',
      ''toLocaleString'', ''toString'', ''valueOf'', ''__proto__'',
      ''__defineGetter__'', ''__defineSetter__'', ''__lookupGetter__'',
      ''__lookupSetter__'']"

text \<open>
  What \<^verbatim>\<open>routeTable[name]\<close> evaluates to: the entry of the table itself when it has
  one, otherwise the member that \<^verbatim>\<open>Object.prototype\<close> has under that name (a function,
  or the prototype itself for \<^verbatim>\<open>__proto__\<close>), otherwise \<^verbatim>\<open>undefined\<close>.
\<close>

datatype property_value = Undefined | Entry route_def | Inherited

definition get_property :: "routeTable \<Rightarrow> string \<Rightarrow> property_value" where
  "get_property routeTable name =
     (case routeTable name of
        Some entry \<Rightarrow> Entry entry
      | None \<Rightarrow> if name \<in> set object_prototype_names then Inherited else Undefined)"

text \<open>
  \<^verbatim>\<open>register\<close> mutates the route table and returns nothing, or throws. The model returns
  the error raised, if any, together with the table as it is when the call ends.

  The first test is \<^verbatim>\<open>routeTable[name] && (pattern !== routeTable[name].pattern)\<close>:
  \<^verbatim>\<open>undefined\<close> is falsy; an entry is truthy and its pattern is compared; an inherited
  member is truthy and has no property \<^verbatim>\<open>pattern\<close>, so the comparison of the string
  with \<^verbatim>\<open>undefined\<close> is true. The assignment is reached only when the name has an entry
  of its own or no member at all, where it sets the entry of the table itself.
\<close>

definition register ::
  "routeTable \<Rightarrow> string list \<Rightarrow> string list \<Rightarrow> error option \<times> routeTable" where
  "register routeTable nameHierarchy pathHierarchy =
     (let name = join ''.'' nameHierarchy;
          pat = buildPath pathHierarchy
      in if (case get_property routeTable name of
               Undefined \<Rightarrow> False
             | Entry entry \<Rightarrow> pat \<noteq> pattern entry
             | Inherited \<Rightarrow> True)
         then (Some (DuplicateRouteName name), routeTable)
         else if \<not> isValidPathForNamedRoute (JStr pat)
         then (Some (MalformedPattern pat), routeTable)
         else (None,
               routeTable(name \<mapsto>
                 \<lparr>pattern = pat, tokens = map toToken (split CHR ''/'' pat)\<rparr>)))"

section \<open>Auxiliary helpers\<close>

text \<open>
  Navigation events. The module \<^verbatim>\<open>./constants\<close> that provides \<^verbatim>\<open>PUSH\<close> and
  \<^verbatim>\<open>POP\<close> is a parameter: any two values of the type of the \<^verbatim>\<open>operation\<close> field.
\<close>

record 'op constants =
  PUSH :: 'op
  POP :: 'op

record 'op event =
  operation :: 'op
  name :: string

definition isTerminalRoute ::
  "'op constants \<Rightarrow> 'op event option \<Rightarrow> 'op event \<Rightarrow> bool" where
  "isTerminalRoute constants previousEvent event =
     (case previousEvent of
        None \<Rightarrow> False
      | Some prev \<Rightarrow>
          if operation prev = PUSH constants \<and> operation event = POP constants
          then name prev = name event
          else False)"

text \<open>
  \<^verbatim>\<open>flattenDeep\<close>: the \<^verbatim>\<open>forEach\<close> loop carries \<^verbatim>\<open>ret\<close>; an item that is not an
  array is pushed, an array is flattened by the recursive call and its result pushed
  element by element.
\<close>

fun elements :: "js_value \<Rightarrow> js_value list" where
  "elements (JArr xs) = xs"
| "elements v = []"

function flattenDeep :: "js_value list \<Rightarrow> js_value list"
  and flattenDeep_forEach :: "js_value list \<Rightarrow> js_value list \<Rightarrow> js_value list" where
  "flattenDeep nestedArrays = flattenDeep_forEach [] nestedArrays"
| "flattenDeep_forEach ret [] = ret"
| "flattenDeep_forEach ret (item # rest) =
     (if \<not> isArray item then flattenDeep_forEach (ret @ [item]) rest
      else flattenDeep_forEach (ret @ flattenDeep (elements item)) rest)"
  by pat_completeness auto
termination
  by (relation "measure (\<lambda>x. case x of
          Inl xs \<Rightarrow> Suc (size_list size xs)
        | Inr (ret, xs) \<Rightarrow> size_list size xs)")
     (auto, case_tac item, simp_all)

text \<open>
  The leaves of a nested sequence in depth-first, left-to-right order, as the
  specification words it: a value that is not a sequence is a leaf, a sequence
  contributes the leaves of its elements in order.
\<close>

fun leaves :: "js_value \<Rightarrow> js_value list" where
  "leaves (JArr xs) = concat (map leaves xs)"
| "leaves v = [v]"

section \<open>Properties of the string primitives\<close>

lemma join_empty_sep: "join [] xs = concat xs"
  by (induction xs rule: induct_list012) simp_all

lemma split_not_Nil: "split c s \<noteq> []"
  by (induction s) (simp_all split: list.splits)

lemma join_split: "join [c] (split c s) = s"
proof (induction s)
  case Nil
  show ?case by simp
next
  case (Cons x xs)
  obtain seg segs where sp: "split c xs = seg # segs"
    using split_not_Nil [of c xs] by (cases "split c xs") auto
  with Cons show ?case
    by (cases segs) auto
qed

section \<open>Properties of buildPath\<close>

lemma slashIgnored_loop:
  "foldl (\<lambda>acc path. if path \<noteq> ''/'' then acc @ [path] else acc) acc ps
     = acc @ filter (\<lambda>p. p \<noteq> ''/'') ps"
  by (induction ps arbitrary: acc) simp_all

lemma buildPath_filter:
  "buildPath ps =
     (if filter (\<lambda>p. p \<noteq> ''/'') ps = [] then ''/''
      else concat (filter (\<lambda>p. p \<noteq> ''/'') ps))"
  by (simp add: buildPath_def slashIgnored_loop join_empty_sep Let_def)

text \<open>
  C5. For every sequence of string fragments, \<^verbatim>\<open>buildPath\<close> drops each fragment equal
  to \<^verbatim>\<open>'/'\<close>, concatenates the remaining fragments in order with nothing inserted
  between them, and returns \<^verbatim>\<open>'/'\<close> when no fragment remains; the four documented
  examples evaluate as stated.
\<close>

theorem buildPath_drops_slash_and_concatenates:
  "buildPath ps =
     (if filter (\<lambda>p. p \<noteq> ''/'') ps = [] then ''/''
      else concat (filter (\<lambda>p. p \<noteq> ''/'') ps))
   \<and> buildPath [''/''] = ''/''
   \<and> buildPath [''/foo'', ''/:slug''] = ''/foo/:slug''
   \<and> buildPath [''/foo'', ''/bar/:slug'', ''/wow''] = ''/foo/bar/:slug/wow''
   \<and> buildPath [''/foo'', ''/'', ''/deep-foo''] = ''/foo/deep-foo''"
  by (simp add: buildPath_filter)

section \<open>The matcher decides the language\<close>

lemma nullable_iff: "nullable r \<longleftrightarrow> [] \<in> lang r"
  by (induction r) (auto simp: conc_def intro: star.intros)

lemma Cons_in_conc:
  "c # w \<in> conc A B \<longleftrightarrow>
     ([] \<in> A \<and> c # w \<in> B) \<or> (\<exists>u v. w = u @ v \<and> c # u \<in> A \<and> v \<in> B)"
  unfolding conc_def
  by (auto simp: Cons_eq_append_conv append_eq_Cons_conv)

lemma Cons_in_star:
  "c # w \<in> star A \<longleftrightarrow> (\<exists>u v. w = u @ v \<and> c # u \<in> A \<and> v \<in> star A)"
proof
  assume "c # w \<in> star A"
  then show "\<exists>u v. w = u @ v \<and> c # u \<in> A \<and> v \<in> star A"
  proof (induction "c # w" rule: star.induct)
    case (star_step u v)
    then show ?case by (cases u) auto
  qed
next
  assume "\<exists>u v. w = u @ v \<and> c # u \<in> A \<and> v \<in> star A"
  then obtain u v where "w = u @ v" "c # u \<in> A" "v \<in> star A" by blast
  then show "c # w \<in> star A"
    using star_step [of "c # u" A v] by simp
qed

lemma lang_deriv: "w \<in> lang (deriv c r) \<longleftrightarrow> c # w \<in> lang r"
proof (induction r arbitrary: w)
  case (Seq r s)
  then show ?case
    by (auto simp: Cons_in_conc nullable_iff) (auto simp: conc_def)
next
  case (Star r)
  then show ?case
    by (auto simp: Cons_in_star) (auto simp: conc_def)
qed auto

lemma full_match_iff: "full_match r s \<longleftrightarrow> s \<in> lang r"
  by (induction s arbitrary: r) (simp_all add: nullable_iff lang_deriv)

lemma star_append: "u \<in> star A \<Longrightarrow> v \<in> star A \<Longrightarrow> u @ v \<in> star A"
  by (induction rule: star.induct) (auto intro: star.intros)

lemma lang_Plus: "lang (Plus r) = conc (lang r) (star (lang r))"
  by (simp add: Plus_def)

lemma lang_Plus_append:
  assumes "u \<in> lang (Plus r)" and "v \<in> lang (Plus r)"
  shows "u @ v \<in> lang (Plus r)"
proof -
  from assms(1) obtain a b where u: "u = a @ b" "a \<in> lang r" "b \<in> star (lang r)"
    by (auto simp: lang_Plus conc_def)
  from assms(2) obtain c d where v: "v = c @ d" "c \<in> lang r" "d \<in> star (lang r)"
    by (auto simp: lang_Plus conc_def)
  have "c @ d \<in> star (lang r)"
    using v by (auto intro: star.intros)
  then have "b @ c @ d \<in> star (lang r)"
    using u(3) by (rule star_append [rotated])
  then show ?thesis
    using u v unfolding lang_Plus conc_def by auto
qed

lemma lang_Plus_concat:
  "fs \<noteq> [] \<Longrightarrow> list_all (\<lambda>f. f \<in> lang (Plus r)) fs \<Longrightarrow> concat fs \<in> lang (Plus r)"
proof (induction fs)
  case Nil
  then show ?case by simp
next
  case (Cons f fs)
  show ?case
  proof (cases "fs = []")
    case True
    with Cons.prems show ?thesis by simp
  next
    case False
    with Cons have "concat fs \<in> lang (Plus r)" by simp
    moreover have "f \<in> lang (Plus r)" using Cons.prems by simp
    ultimately show ?thesis by (simp add: lang_Plus_append)
  qed
qed

lemma isValidPathForNamedRoute_JStr:
  "isValidPathForNamedRoute (JStr s) \<longleftrightarrow> s = ''/'' \<or> s \<in> lang path_regex"
  by (simp add: isValidPathForNamedRoute_def full_match_iff)

lemma isValidPathForNamedRoute_lang:
  "isValidPathForNamedRoute x \<longleftrightarrow> (\<exists>s. x = JStr s \<and> (s = ''/'' \<or> s \<in> lang path_regex))"
  by (cases x) (simp_all add: isValidPathForNamedRoute_JStr, simp_all add: isValidPathForNamedRoute_def)

lemmas path_regex_eval =
  isValidPathForNamedRoute_def path_regex_def Plus_def Opt_def token_class_def in_class_def

section \<open>Validation of paths\<close>

text \<open>
  C8. For every input value, \<^verbatim>\<open>isValidPathForNamedRoute\<close> returns true exactly when
  the value is the string \<^verbatim>\<open>'/'\<close> or a string in the language of
  \<^verbatim>\<open>^(/:?[-_.a-zA-Z0-9]+)+$\<close>, and false for everything else: values that are not
  strings, the empty string, and \<^verbatim>\<open>'/foo//bar'\<close> with its adjacent slashes. The
  function is total, so no input raises.
\<close>

theorem isValidPathForNamedRoute_iff:
  "(isValidPathForNamedRoute x \<longleftrightarrow>
      (\<exists>s. x = JStr s \<and> (s = ''/'' \<or> s \<in> lang path_regex)))
   \<and> isValidPathForNamedRoute (JStr ''/'')
   \<and> isValidPathForNamedRoute (JStr ''/foo/:bar'')
   \<and> \<not> isValidPathForNamedRoute (JStr ''/foo//bar'')
   \<and> \<not> isValidPathForNamedRoute (JStr '''')
   \<and> \<not> isValidPathForNamedRoute JUndefined
   \<and> \<not> isValidPathForNamedRoute JNull
   \<and> \<not> isValidPathForNamedRoute (JBool b)
   \<and> \<not> isValidPathForNamedRoute (JNum n)
   \<and> \<not> isValidPathForNamedRoute (JArr xs)
   \<and> \<not> isValidPathForNamedRoute (JObj kvs)"
proof -
  have general: "isValidPathForNamedRoute x \<longleftrightarrow>
      (\<exists>s. x = JStr s \<and> (s = ''/'' \<or> s \<in> lang path_regex))"
    by (rule isValidPathForNamedRoute_lang)
  have ex1: "isValidPathForNamedRoute (JStr ''/'')"
    by (simp add: isValidPathForNamedRoute_def)
  have ex2: "isValidPathForNamedRoute (JStr ''/foo/:bar'')"
    by (simp add: path_regex_eval)
  have ex3: "\<not> isValidPathForNamedRoute (JStr ''/foo//bar'')"
    by (simp add: path_regex_eval)
  have ex4: "\<not> isValidPathForNamedRoute (JStr '''')"
    by (simp add: path_regex_eval)
  have others: "\<not> isValidPathForNamedRoute JUndefined" "\<not> isValidPathForNamedRoute JNull"
    "\<not> isValidPathForNamedRoute (JBool b)" "\<not> isValidPathForNamedRoute (JNum n)"
    "\<not> isValidPathForNamedRoute (JArr xs)" "\<not> isValidPathForNamedRoute (JObj kvs)"
    by (simp_all add: isValidPathForNamedRoute_def)
  from general ex1 ex2 ex3 ex4 others show ?thesis by blast
qed

text \<open>
  C7. When every fragment of a hierarchy is \<^verbatim>\<open>'/'\<close> or itself a valid path, the path
  that \<^verbatim>\<open>buildPath\<close> returns is a valid path.
\<close>

theorem buildPath_valid:
  assumes "\<forall>f \<in> set ps. f = ''/'' \<or> isValidPathForNamedRoute (JStr f)"
  shows "isValidPathForNamedRoute (JStr (buildPath ps))"
proof (cases "filter (\<lambda>p. p \<noteq> ''/'') ps = []")
  case True
  then show ?thesis
    by (simp add: buildPath_filter isValidPathForNamedRoute_JStr)
next
  case False
  have "list_all (\<lambda>f. f \<in> lang (Plus (Seq (Chr CHR ''/'') (Seq (Opt (Chr CHR '':'')) (Plus (Class token_class))))))
          (filter (\<lambda>p. p \<noteq> ''/'') ps)"
    using assms by (auto simp: list_all_iff isValidPathForNamedRoute_JStr path_regex_def)
  with False have "concat (filter (\<lambda>p. p \<noteq> ''/'') ps) \<in> lang path_regex"
    unfolding path_regex_def by (rule lang_Plus_concat)
  with False show ?thesis
    by (simp add: buildPath_filter isValidPathForNamedRoute_JStr)
qed

theorem buildPath_valid_witness:
  "isValidPathForNamedRoute (JStr ''/foo'')
   \<and> isValidPathForNamedRoute (JStr ''/bar/:slug'')
   \<and> isValidPathForNamedRoute (JStr (buildPath [''/foo'', ''/'', ''/bar/:slug'']))
   \<and> buildPath [''/foo'', ''/'', ''/bar/:slug''] = ''/foo/bar/:slug''"
proof -
  have a: "isValidPathForNamedRoute (JStr ''/foo'')"
    by (simp add: path_regex_eval)
  have b: "isValidPathForNamedRoute (JStr ''/bar/:slug'')"
    by (simp add: path_regex_eval)
  have "\<forall>f \<in> set [''/foo'', ''/'', ''/bar/:slug'']. f = ''/'' \<or> isValidPathForNamedRoute (JStr f)"
    using a b by simp
  then have "isValidPathForNamedRoute (JStr (buildPath [''/foo'', ''/'', ''/bar/:slug'']))"
    by (rule buildPath_valid)
  moreover have "buildPath [''/foo'', ''/'', ''/bar/:slug''] = ''/foo/bar/:slug''"
    by (simp add: buildPath_filter)
  ultimately show ?thesis using a b by blast
qed

section \<open>Properties of tokenization\<close>

lemma render_toToken:
  "(let token = toToken seg in if input token = Some True then '':'' @ text token else text token) = seg"
  by (cases seg) (simp_all add: toToken_def charAt_def substring_def)

lemma tokensToString_toToken: "tokensToString (map toToken segs) = join ''/'' segs"
proof -
  have "map (\<lambda>token. if input token = Some True then '':'' @ text token else text token)
          (map toToken segs) = segs"
    using render_toToken by (induction segs) (simp_all add: Let_def)
  then show ?thesis by (simp add: tokensToString_def)
qed

text \<open>
  C6. For every valid pattern \<open>p\<close>, splitting \<open>p\<close> on \<^verbatim>\<open>'/'\<close>, converting each
  segment with \<^verbatim>\<open>toToken\<close> and rendering the tokens with \<^verbatim>\<open>tokensToString\<close>
  gives \<open>p\<close> back, the empty first segment restoring the leading slash.
\<close>

theorem tokensToString_round_trip:
  "isValidPathForNamedRoute (JStr p) \<Longrightarrow>
     tokensToString (map toToken (split CHR ''/'' p)) = p"
  by (simp add: tokensToString_toToken join_split)

theorem tokensToString_round_trip_witness:
  "isValidPathForNamedRoute (JStr ''/foo/:bar'')
   \<and> map toToken (split CHR ''/'' ''/foo/:bar'')
       = [\<lparr>text = '''', input = None\<rparr>, \<lparr>text = ''foo'', input = None\<rparr>,
          \<lparr>text = ''bar'', input = Some True\<rparr>]
   \<and> tokensToString (map toToken (split CHR ''/'' ''/foo/:bar'')) = ''/foo/:bar''"
proof -
  have v: "isValidPathForNamedRoute (JStr ''/foo/:bar'')"
    by (simp add: path_regex_eval)
  have t: "map toToken (split CHR ''/'' ''/foo/:bar'')
       = [\<lparr>text = '''', input = None\<rparr>, \<lparr>text = ''foo'', input = None\<rparr>,
          \<lparr>text = ''bar'', input = Some True\<rparr>]"
    by (simp add: toToken_def charAt_def substring_def)
  from v t tokensToString_round_trip [OF v] show ?thesis by simp
qed

section \<open>Properties of the auxiliary helpers\<close>

text \<open>
  C9. \<^verbatim>\<open>isTerminalRoute\<close> returns true exactly when the previous event is defined, its
  operation is \<^verbatim>\<open>PUSH\<close>, the operation of the event is \<^verbatim>\<open>POP\<close> and the two names
  are equal; otherwise it returns false, in particular for an undefined previous event.
\<close>

theorem isTerminalRoute_iff:
  "(isTerminalRoute c previousEvent ev \<longleftrightarrow>
      (\<exists>p. previousEvent = Some p \<and> operation p = PUSH c \<and> operation ev = POP c
           \<and> name p = name ev))
   \<and> \<not> isTerminalRoute c None ev
   \<and> isTerminalRoute \<lparr>PUSH = ''PUSH'', POP = ''POP''\<rparr>
        (Some \<lparr>operation = ''PUSH'', name = ''x''\<rparr>) \<lparr>operation = ''POP'', name = ''x''\<rparr>
   \<and> \<not> isTerminalRoute \<lparr>PUSH = ''PUSH'', POP = ''POP''\<rparr>
        (Some \<lparr>operation = ''PUSH'', name = ''x''\<rparr>) \<lparr>operation = ''POP'', name = ''y''\<rparr>"
  by (cases previousEvent) (auto simp: isTerminalRoute_def)

lemma flattenDeep_forEach_leaves:
  "flattenDeep xs = concat (map leaves xs)"
  "flattenDeep_forEach ret ys = ret @ concat (map leaves ys)"
proof (induction xs and ret ys rule: flattenDeep_flattenDeep_forEach.induct)
  case (1 nestedArrays)
  then show ?case by simp
next
  case (2 ret)
  show ?case by simp
next
  case (3 ret item rest)
  show ?case
  proof (cases item)
    case (JArr elems)
    with 3 show ?thesis by simp
  qed (use 3 in simp_all)
qed

lemma leaves_not_array: "list_all (\<lambda>v. \<not> isArray v) (leaves v)"
  by (induction v rule: leaves.induct) (simp_all add: list_all_iff)

lemma concat_leaves_flat:
  "list_all (\<lambda>v. \<not> isArray v) xs \<Longrightarrow> concat (map leaves xs) = xs"
proof (induction xs)
  case Nil
  show ?case by simp
next
  case (Cons x xs)
  then show ?case by (cases x) simp_all
qed

text \<open>
  C10. \<^verbatim>\<open>flattenDeep\<close> returns the leaves of a nested sequence in depth-first,
  left-to-right order: the result holds no array, a sequence without arrays is returned
  as it is, an empty sequence contributes nothing, and
  \<^verbatim>\<open>flattenDeep([1, [2, [3, 4], 5], []])\<close> is \<^verbatim>\<open>[1, 2, 3, 4, 5]\<close>.
\<close>

theorem flattenDeep_leaves_in_order:
  "flattenDeep xs = concat (map leaves xs)
   \<and> list_all (\<lambda>v. \<not> isArray v) (flattenDeep xs)
   \<and> flattenDeep (xs @ ys) = flattenDeep xs @ flattenDeep ys
   \<and> (list_all (\<lambda>v. \<not> isArray v) xs \<longrightarrow> flattenDeep xs = xs)
   \<and> flattenDeep (xs @ [JArr []] @ ys) = flattenDeep (xs @ ys)
   \<and> flattenDeep [JNum 1, JArr [JNum 2, JArr [JNum 3, JNum 4], JNum 5], JArr []]
       = [JNum 1, JNum 2, JNum 3, JNum 4, JNum 5]"
proof -
  have a: "flattenDeep xs = concat (map leaves xs)"
    by (rule flattenDeep_forEach_leaves)
  have b: "list_all (\<lambda>v. \<not> isArray v) (flattenDeep xs)"
    using leaves_not_array by (auto simp: flattenDeep_forEach_leaves list_all_iff)
  have c: "flattenDeep (xs @ ys) = flattenDeep xs @ flattenDeep ys"
    by (simp add: flattenDeep_forEach_leaves)
  have d: "list_all (\<lambda>v. \<not> isArray v) xs \<longrightarrow> flattenDeep xs = xs"
    by (simp add: flattenDeep_forEach_leaves concat_leaves_flat)
  have e: "flattenDeep (xs @ [JArr []] @ ys) = flattenDeep (xs @ ys)"
    by (simp add: flattenDeep_forEach_leaves)
  have f: "flattenDeep [JNum 1, JArr [JNum 2, JArr [JNum 3, JNum 4], JNum 5], JArr []]
       = [JNum 1, JNum 2, JNum 3, JNum 4, JNum 5]"
    by simp
  from a b c d e f show ?thesis by blast
qed

theorem flattenDeep_leaves_in_order_witness:
  "list_all (\<lambda>v. \<not> isArray v) [JNum 7, JStr ''x'', JNull]
   \<and> flattenDeep [JNum 7, JStr ''x'', JNull] = [JNum 7, JStr ''x'', JNull]
   \<and> flattenDeep [JArr [JArr [JStr ''a''], JBool True], JNum 2]
       = concat (map leaves [JArr [JArr [JStr ''a''], JBool True], JNum 2])"
proof -
  have h: "list_all (\<lambda>v. \<not> isArray v) [JNum 7, JStr ''x'', JNull]" by simp
  from h flattenDeep_leaves_in_order [of "[JNum 7, JStr ''x'', JNull]" "[]"]
  have "flattenDeep [JNum 7, JStr ''x'', JNull] = [JNum 7, JStr ''x'', JNull]" by blast
  moreover from flattenDeep_leaves_in_order
      [of "[JArr [JArr [JStr ''a''], JBool True], JNum 2]" "[]"]
  have "flattenDeep [JArr [JArr [JStr ''a''], JBool True], JNum 2]
       = concat (map leaves [JArr [JArr [JStr ''a''], JBool True], JNum 2])" by blast
  ultimately show ?thesis using h by blast
qed

section \<open>Properties of registration\<close>

lemma register_cases:
  "register t nh ph =
     (if (\<exists>d. t (join ''.'' nh) = Some d \<and> pattern d \<noteq> buildPath ph)
         \<or> (t (join ''.'' nh) = None \<and> join ''.'' nh \<in> set object_prototype_names)
      then (Some (DuplicateRouteName (join ''.'' nh)), t)
      else if \<not> isValidPathForNamedRoute (JStr (buildPath ph))
      then (Some (MalformedPattern (buildPath ph)), t)
      else (None,
            t(join ''.'' nh \<mapsto>
                \<lparr>pattern = buildPath ph,
                 tokens = map toToken (split CHR ''/'' (buildPath ph))\<rparr>)))"
  by (auto simp: register_def get_property_def Let_def split: option.splits)

lemmas register_eval =
  register_cases buildPath_filter path_regex_eval toToken_def charAt_def substring_def
  object_prototype_names_def

lemma register_empty_a_x:
  "register Map.empty [''a''] [''/x'']
     = (None, Map.empty(''a'' \<mapsto>
          \<lparr>pattern = ''/x'',
           tokens = [\<lparr>text = '''', input = None\<rparr>, \<lparr>text = ''x'', input = None\<rparr>]\<rparr>))"
  by (simp add: register_eval)

lemma foo_colon_invalid: "\<not> isValidPathForNamedRoute (JStr ''/foo/:'')"
  by (simp add: path_regex_eval)

lemma register_again:
  assumes "fst (register t nh ph) = None"
  shows "register (snd (register t nh ph)) nh ph = (None, snd (register t nh ph))"
proof -
  let ?name = "join ''.'' nh"
  let ?entry = "\<lparr>pattern = buildPath ph,
                 tokens = map toToken (split CHR ''/'' (buildPath ph))\<rparr>"
  from assms have valid: "isValidPathForNamedRoute (JStr (buildPath ph))"
    by (auto simp: register_cases split: if_splits)
  from assms have first: "register t nh ph = (None, t(?name \<mapsto> ?entry))"
    by (auto simp: register_cases split: if_splits)
  have "register (t(?name \<mapsto> ?entry)) nh ph = (None, t(?name \<mapsto> ?entry))"
    using valid by (simp add: register_cases)
  with first show ?thesis by simp
qed

lemma register_duplicate_iff_not_inherited:
  assumes "join ''.'' nh \<notin> set object_prototype_names"
  shows "(\<exists>n. fst (register t nh ph) = Some (DuplicateRouteName n)) \<longleftrightarrow>
           (\<exists>d. t (join ''.'' nh) = Some d \<and> pattern d \<noteq> buildPath ph)"
  using assms by (simp add: register_cases)

text \<open>
  C1. When \<^verbatim>\<open>register\<close> raises no error, the table afterwards is the table before
  with the entry for \<^verbatim>\<open>nameHierarchy.join('.')\<close> set to the record whose pattern is
  \<^verbatim>\<open>buildPath(pathHierarchy)\<close> and whose tokens are that pattern split on
  \<^verbatim>\<open>'/'\<close> and mapped through \<^verbatim>\<open>toToken\<close>; every other entry is as it was.
\<close>

theorem register_sets_entry:
  assumes "fst (register t nh ph) = None"
  shows "snd (register t nh ph)
           = t(join ''.'' nh \<mapsto>
                 \<lparr>pattern = buildPath ph,
                  tokens = map toToken (split CHR ''/'' (buildPath ph))\<rparr>)
         \<and> (\<forall>k. k \<noteq> join ''.'' nh \<longrightarrow> snd (register t nh ph) k = t k)"
  using assms by (auto simp: register_cases split: if_splits)

theorem register_sets_entry_witness:
  "fst (register Map.empty [''a'', ''b''] [''/a'', ''/:b'']) = None
   \<and> snd (register Map.empty [''a'', ''b''] [''/a'', ''/:b''])
       = Map.empty(''a.b'' \<mapsto>
           \<lparr>pattern = ''/a/:b'',
            tokens = [\<lparr>text = '''', input = None\<rparr>, \<lparr>text = ''a'', input = None\<rparr>,
                      \<lparr>text = ''b'', input = Some True\<rparr>]\<rparr>)"
proof -
  have h: "fst (register Map.empty [''a'', ''b''] [''/a'', ''/:b'']) = None"
    by (simp add: register_eval)
  from register_sets_entry [OF h] h show ?thesis
    by (simp add: buildPath_filter toToken_def charAt_def substring_def)
qed

text \<open>
  C2 says that \<^verbatim>\<open>register\<close> raises the duplicate-name error exactly when the table
  has an entry for the computed name whose stored pattern differs. The code does not do
  that for a name that \<^verbatim>\<open>Object.prototype\<close> has a member for: on the empty table
  \<^verbatim>\<open>{}\<close>, \<^verbatim>\<open>register({}, ['constructor'], ['/x'])\<close> has a valid pattern and no
  entry to conflict with, and raises the duplicate-name error, because
  \<^verbatim>\<open>routeTable[name]\<close> finds the inherited member.
\<close>

theorem register_inherited_name_duplicate:
  "Map.empty ''constructor'' = (None :: route_def option)
   \<and> isValidPathForNamedRoute (JStr (buildPath [''/x'']))
   \<and> register Map.empty [''constructor''] [''/x'']
       = (Some (DuplicateRouteName ''constructor''), Map.empty)"
proof -
  have p: "buildPath [''/x''] = ''/x''"
    by (simp add: buildPath_filter)
  have v: "isValidPathForNamedRoute (JStr ''/x'')"
    by (simp add: path_regex_eval)
  have "register Map.empty [''constructor''] [''/x'']
       = (Some (DuplicateRouteName ''constructor''), Map.empty)"
    by (simp add: register_cases object_prototype_names_def)
  with p v show ?thesis by simp
qed

text \<open>
  C3, as stated, fails: the duplicate-name check comes first, so a malformed pattern
  registered under a name that already has a different pattern raises the duplicate-name
  error, not the malformed-pattern error.
\<close>

theorem register_malformed_counterexample:
  "\<not> isValidPathForNamedRoute (JStr (buildPath [''/foo/:'']))
   \<and> fst (register Map.empty [''a''] [''/x'']) = None
   \<and> fst (register (snd (register Map.empty [''a''] [''/x''])) [''a''] [''/foo/:''])
       = Some (DuplicateRouteName ''a'')
   \<and> fst (register (snd (register Map.empty [''a''] [''/x''])) [''a''] [''/foo/:''])
       \<noteq> Some (MalformedPattern ''/foo/:'')"
proof -
  have "buildPath [''/foo/:''] = ''/foo/:''"
    by (simp add: buildPath_filter)
  then have a: "\<not> isValidPathForNamedRoute (JStr (buildPath [''/foo/:'']))"
    using foo_colon_invalid by simp
  have b: "fst (register (snd (register Map.empty [''a''] [''/x''])) [''a''] [''/foo/:''])
       = Some (DuplicateRouteName ''a'')"
    by (simp add: register_empty_a_x) (simp add: register_cases buildPath_filter)
  from a b show ?thesis by (simp add: register_empty_a_x)
qed

text \<open>
  C3, amended. When the computed pattern is not a valid path, \<^verbatim>\<open>register\<close> raises an
  error and adds no entry, the table staying as it was. The error is the duplicate-name
  error when the table has an entry for the computed name with a different pattern. It is
  the malformed-pattern error when the table has an entry for the name with the same
  pattern, and when the table has no entry for the name and the name is not a property
  name of \<^verbatim>\<open>Object.prototype\<close>; so on the empty table
  \<^verbatim>\<open>register(table, ['a'], ['/foo/:'])\<close> raises the malformed-pattern error.
\<close>

theorem register_malformed:
  assumes "\<not> isValidPathForNamedRoute (JStr (buildPath ph))"
  shows "(\<exists>e. fst (register t nh ph) = Some e)
         \<and> snd (register t nh ph) = t
         \<and> ((\<exists>d. t (join ''.'' nh) = Some d \<and> pattern d \<noteq> buildPath ph) \<longrightarrow>
              fst (register t nh ph) = Some (DuplicateRouteName (join ''.'' nh)))
         \<and> ((\<exists>d. t (join ''.'' nh) = Some d \<and> pattern d = buildPath ph) \<longrightarrow>
              fst (register t nh ph) = Some (MalformedPattern (buildPath ph)))
         \<and> (t (join ''.'' nh) = None \<and> join ''.'' nh \<notin> set object_prototype_names \<longrightarrow>
              fst (register t nh ph) = Some (MalformedPattern (buildPath ph)))
         \<and> fst (register Map.empty [''a''] [''/foo/:'']) = Some (MalformedPattern ''/foo/:'')"
proof -
  have ex: "fst (register Map.empty [''a''] [''/foo/:'']) = Some (MalformedPattern ''/foo/:'')"
    using foo_colon_invalid
    by (simp add: register_cases buildPath_filter object_prototype_names_def)
  have a: "\<exists>e. fst (register t nh ph) = Some e"
    using assms by (simp add: register_cases)
  have b: "snd (register t nh ph) = t"
    using assms by (simp add: register_cases)
  have c: "(\<exists>d. t (join ''.'' nh) = Some d \<and> pattern d \<noteq> buildPath ph) \<longrightarrow>
              fst (register t nh ph) = Some (DuplicateRouteName (join ''.'' nh))"
    by (simp add: register_cases)
  have d: "(\<exists>d. t (join ''.'' nh) = Some d \<and> pattern d = buildPath ph) \<longrightarrow>
              fst (register t nh ph) = Some (MalformedPattern (buildPath ph))"
    using assms by (auto simp: register_cases)
  have e: "t (join ''.'' nh) = None \<and> join ''.'' nh \<notin> set object_prototype_names \<longrightarrow>
              fst (register t nh ph) = Some (MalformedPattern (buildPath ph))"
    using assms by (simp add: register_cases)
  from a b c d e ex show ?thesis by blast
qed

theorem register_malformed_witness:
  "\<not> isValidPathForNamedRoute (JStr (buildPath [''/foo'', ''//bar'']))
   \<and> Map.empty ''a.b'' = (None :: route_def option)
   \<and> ''a.b'' \<notin> set object_prototype_names
   \<and> register Map.empty [''a'', ''b''] [''/foo'', ''//bar'']
       = (Some (MalformedPattern ''/foo//bar''), Map.empty)"
proof -
  have p: "buildPath [''/foo'', ''//bar''] = ''/foo//bar''"
    by (simp add: buildPath_filter)
  have "\<not> isValidPathForNamedRoute (JStr ''/foo//bar'')"
    by (simp add: path_regex_eval)
  with p have h: "\<not> isValidPathForNamedRoute (JStr (buildPath [''/foo'', ''//bar'']))"
    by simp
  have n: "''a.b'' \<notin> set object_prototype_names"
    by (simp add: object_prototype_names_def)
  from register_malformed [OF h, of Map.empty "[''a'', ''b'']"] h n show ?thesis
    by (simp add: p prod_eq_iff)
qed

text \<open>
  C4. When \<^verbatim>\<open>register\<close> raises an error, which is one of the two above, the table is
  left as it was: both checks come before the only write.
\<close>

theorem register_error_leaves_table:
  assumes "fst (register t nh ph) = Some e"
  shows "snd (register t nh ph) = t
         \<and> (e = DuplicateRouteName (join ''.'' nh) \<or> e = MalformedPattern (buildPath ph))"
  using assms by (auto simp: register_cases split: if_splits)

theorem register_error_leaves_table_witness:
  "fst (register (snd (register Map.empty [''a''] [''/x''])) [''a''] [''/y''])
     = Some (DuplicateRouteName ''a'')
   \<and> snd (register (snd (register Map.empty [''a''] [''/x''])) [''a''] [''/y''])
       = snd (register Map.empty [''a''] [''/x''])"
proof -
  have h: "fst (register (snd (register Map.empty [''a''] [''/x''])) [''a''] [''/y''])
     = Some (DuplicateRouteName ''a'')"
    by (simp add: register_empty_a_x) (simp add: register_cases buildPath_filter)
  from register_error_leaves_table [OF h] h show ?thesis by blast
qed

end
